theory Spec2Isabelle
  imports Complex_Main
begin

section \<open>Python values, dictionaries and exceptions\<close>

text \<open>
  The values the downloader reads out of the dictionaries it is handed (progress events,
  the engine's info dictionary): \<open>None\<close>, integers and strings.  Byte counts are
  integers, as the annotation of \<open>human_bytes\<close> says.  The percentage
  \<open>downloaded_bytes / total_bytes * 100\<close> is a Python float; it is modelled by the exact
  rational quotient, so the rounding of the float division is not part of the model.
\<close>

datatype pyval = PyNone | PyInt int | PyStr string

type_synonym pydict = "(string \<times> pyval) list"

definition dict_get :: "pydict \<Rightarrow> string \<Rightarrow> pyval" where
  \<comment> \<open>\<open>d.get(k)\<close>\<close>
  "dict_get d k = (case map_of d k of None \<Rightarrow> PyNone | Some v \<Rightarrow> v)"

definition dict_get_default :: "pydict \<Rightarrow> string \<Rightarrow> pyval \<Rightarrow> pyval" where
  \<comment> \<open>\<open>d.get(k, default)\<close>: the default only replaces an absent key\<close>
  "dict_get_default d k dflt = (case map_of d k of None \<Rightarrow> dflt | Some v \<Rightarrow> v)"

fun truthy :: "pyval \<Rightarrow> bool" where
  "truthy PyNone = False"
| "truthy (PyInt n) = (n \<noteq> 0)"
| "truthy (PyStr s) = (s \<noteq> [])"

definition py_or :: "pyval \<Rightarrow> pyval \<Rightarrow> pyval" where
  \<comment> \<open>\<open>a or b\<close>\<close>
  "py_or a b = (if truthy a then a else b)"

datatype exn =
    ValueError string
  | RuntimeError string
  | OSError string
  | TypeError string
  | AttributeError string
  | ZeroDivisionError string
  | DownloadError string

fun exn_str :: "exn \<Rightarrow> string" where
  \<comment> \<open>\<open>str(e)\<close>\<close>
  "exn_str (ValueError m) = m"
| "exn_str (RuntimeError m) = m"
| "exn_str (OSError m) = m"
| "exn_str (TypeError m) = m"
| "exn_str (AttributeError m) = m"
| "exn_str (ZeroDivisionError m) = m"
| "exn_str (DownloadError m) = m"

definition digit_char :: "nat \<Rightarrow> char" where
  "digit_char n = char_of (48 + n)"

function show_nat :: "nat \<Rightarrow> string" where
  "show_nat n = (if n < 10 then [digit_char n] else show_nat (n div 10) @ [digit_char (n mod 10)])"
  by pat_completeness auto
termination
  by (relation "measure id") auto

definition show_int :: "int \<Rightarrow> string" where
  "show_int i = (if i < 0 then CHR ''-'' # show_nat (nat (- i)) else show_nat (nat i))"

fun py_str :: "pyval \<Rightarrow> string" where
  \<comment> \<open>\<open>str(v)\<close>, as an f-string field formats it\<close>
  "py_str PyNone = ''None''"
| "py_str (PyInt i) = show_int i"
| "py_str (PyStr s) = s"

definition quoted :: "string \<Rightarrow> string" where
  "quoted s = CHR 0x27 # s @ [CHR 0x27]"

section \<open>human_bytes\<close>

text \<open>
  \<open>human_bytes(n)\<close> compares \<open>n < 0\<close> first, which raises \<open>TypeError\<close> for
  \<open>None\<close> and for a string.  The result string \<open>f"{n:.2f} {units[i]}"\<close> is kept
  as the scaled amount and the unit.
\<close>

datatype human = Unknown | Amount rat string

definition units :: "string list" where
  "units = [''B'', ''KB'', ''MB'', ''GB'', ''TB'']"

function human_loop :: "rat \<Rightarrow> nat \<Rightarrow> rat \<times> nat" where
  "human_loop n i =
     (if n \<ge> 1024 \<and> i < length units - 1 then human_loop (n / 1024) (i + 1) else (n, i))"
  by pat_completeness auto
termination
  by (relation "measure (\<lambda>(n, i). length units - 1 - i)") auto

definition lt_type_error :: "string \<Rightarrow> exn" where
  "lt_type_error t =
     TypeError (quoted ''<'' @ '' not supported between instances of '' @ quoted t
                @ '' and '' @ quoted ''int'')"

fun human_bytes :: "pyval \<Rightarrow> exn + human" where
  "human_bytes PyNone = Inl (lt_type_error ''NoneType'')"
| "human_bytes (PyStr s) = Inl (lt_type_error ''str'')"
| "human_bytes (PyInt n) =
     (if n < 0 then Inr Unknown
      else (case human_loop (of_int n) 0 of (m, i) \<Rightarrow> Inr (Amount m (units ! i))))"

section \<open>The downloader object and its progress hook\<close>

text \<open>
  \<open>_last_progress\<close> is one of four dictionaries: the empty one of \<open>__init__\<close>, the
  six-key dictionary of a "downloading" event, \<open>{"status": "finished"}\<close> and
  \<open>{"status": "error"}\<close>.
\<close>

record snapshot =
  downloaded_bytes :: pyval
  total_bytes :: pyval
  percent :: "rat option"
  speed :: pyval
  eta :: pyval

datatype progress = NoProgress | Downloading snapshot | Finished | Errored

fun progress_percent :: "progress \<Rightarrow> rat option" where
  \<comment> \<open>\<open>st.get("percent")\<close>\<close>
  "progress_percent (Downloading sn) = percent sn"
| "progress_percent _ = None"

record downloader =
  output_dir :: string
  verbose :: bool
  last_progress :: progress
  stop_requested :: bool

definition init :: "string \<Rightarrow> bool \<Rightarrow> downloader" where
  \<comment> \<open>\<open>YTDLDownloader.__init__\<close>\<close>
  "init out_dir verb =
     \<lparr>output_dir = out_dir, verbose = verb, last_progress = NoProgress, stop_requested = False\<rparr>"

definition stop :: "downloader \<Rightarrow> downloader" where
  \<comment> \<open>\<open>YTDLDownloader.stop\<close>\<close>
  "stop d = d\<lparr>stop_requested := True\<rparr>"

definition event_downloaded :: "pydict \<Rightarrow> pyval" where
  \<comment> \<open>\<open>d.get("downloaded_bytes", -1)\<close>\<close>
  "event_downloaded d = dict_get_default d ''downloaded_bytes'' (PyInt (- 1))"

definition event_total :: "pydict \<Rightarrow> pyval" where
  \<comment> \<open>\<open>d.get("total_bytes") or d.get("total_bytes_estimate", -1)\<close>\<close>
  "event_total d =
     py_or (dict_get d ''total_bytes'') (dict_get_default d ''total_bytes_estimate'' (PyInt (- 1)))"

fun gt_zero :: "pyval \<Rightarrow> exn + bool" where
  \<comment> \<open>\<open>v > 0\<close>\<close>
  "gt_zero (PyInt n) = Inr (0 < n)"
| "gt_zero PyNone =
     Inl (TypeError (quoted ''>'' @ '' not supported between instances of ''
                     @ quoted ''NoneType'' @ '' and '' @ quoted ''int''))"
| "gt_zero (PyStr s) =
     Inl (TypeError (quoted ''>'' @ '' not supported between instances of ''
                     @ quoted ''str'' @ '' and '' @ quoted ''int''))"

fun percent_of :: "pyval \<Rightarrow> pyval \<Rightarrow> exn + rat" where
  \<comment> \<open>\<open>downloaded_bytes / total_bytes * 100\<close>\<close>
  "percent_of (PyInt dn) (PyInt t) =
     (if t = 0 then Inl (ZeroDivisionError ''division by zero'')
      else Inr (of_int dn / of_int t * 100))"
| "percent_of _ _ = Inl (TypeError ''unsupported operand type(s) for /'')"

definition compute_percent :: "pyval \<Rightarrow> pyval \<Rightarrow> exn + rat option" where
  \<comment> \<open>\<open>percent = None; if total_bytes and downloaded_bytes and total_bytes > 0: percent = ...\<close>\<close>
  "compute_percent dn t =
     (if \<not> truthy t then Inr None
      else if \<not> truthy dn then Inr None
      else (case gt_zero t of
              Inl e \<Rightarrow> Inl e
            | Inr False \<Rightarrow> Inr None
            | Inr True \<Rightarrow> (case percent_of dn t of Inl e \<Rightarrow> Inl e | Inr p \<Rightarrow> Inr (Some p))))"

definition log_downloading :: "rat option \<Rightarrow> pyval \<Rightarrow> pyval \<Rightarrow> exn option" where
  \<comment> \<open>the argument of \<open>logger.info\<close> in the downloading branch: only its exceptions are kept\<close>
  "log_downloading p dn t =
     (case p of
        Some x \<Rightarrow>
          (case human_bytes dn of
             Inl e \<Rightarrow> Some e
           | Inr _ \<Rightarrow> (case human_bytes t of Inl e \<Rightarrow> Some e | Inr _ \<Rightarrow> None))
      | None \<Rightarrow> (case human_bytes dn of Inl e \<Rightarrow> Some e | Inr _ \<Rightarrow> None))"

definition progress_hook :: "pydict \<Rightarrow> downloader \<Rightarrow> exn option \<times> downloader" where
  \<comment> \<open>\<open>YTDLDownloader._progress_hook\<close>: the exception it raises, if any, and the object after it\<close>
  "progress_hook d self =
     (let status = dict_get d ''status'' in
      if status = PyStr ''downloading'' then
        (let dn = event_downloaded d;
             t = event_total d;
             sp = dict_get d ''speed'';
             et = dict_get d ''eta''
         in case compute_percent dn t of
              Inl e \<Rightarrow> (Some e, self)
            | Inr p \<Rightarrow>
                (log_downloading p dn t,
                 self\<lparr>last_progress :=
                   Downloading \<lparr>downloaded_bytes = dn, total_bytes = t, percent = p,
                                speed = sp, eta = et\<rparr>\<rparr>))
      else if status = PyStr ''finished'' then (None, self\<lparr>last_progress := Finished\<rparr>)
      else if status = PyStr ''error'' then (None, self\<lparr>last_progress := Errored\<rparr>)
      else (None, self))"

fun ingest :: "pydict list \<Rightarrow> downloader \<Rightarrow> downloader" where
  \<comment> \<open>the events one engine invocation delivers to the hook, in order\<close>
  "ingest [] self = self"
| "ingest (d # ds) self = ingest ds (snd (progress_hook d self))"

text \<open>The monitor of the GUI clamps what it displays: \<open>max(0, min(100, pct))\<close> with
  \<open>pct = st.get("percent") or 0.0\<close>.\<close>

definition monitor_value :: "progress \<Rightarrow> rat" where
  "monitor_value st =
     (let pct = (case progress_percent st of None \<Rightarrow> 0 | Some p \<Rightarrow> p) in max 0 (min 100 pct))"

section \<open>The world around the downloader\<close>

text \<open>
  What \<open>download\<close> does to the outside is recorded, in order, in a trace: the PATH lookup
  of \<open>shutil.which\<close>, the test \<open>os.path.isdir\<close>, the call of \<open>os.makedirs\<close>, every
  invocation of the extraction engine (\<open>YoutubeDL(ydl_opts).extract_info(url)\<close>) and every
  \<open>time.sleep\<close>.
\<close>

record ydl_opts =
  outtmpl :: string
  quiet :: bool
  no_warnings :: bool
  noplaylist :: bool
  format :: string
  retries :: int
  add_metadata :: bool
  merge_output_format :: string
  writethumbnail :: bool
  postprocessors :: "(string \<times> string) list list"

datatype effect =
    Which string
  | IsDir string
  | Makedirs string
  | Extract string ydl_opts
  | Sleep int

text \<open>
  The engine is outside the repository: it is a parameter of the model.  One invocation
  delivers events to the progress hook and then raises or returns the info dictionary
  (\<open>extract_info\<close> can return \<open>None\<close>); what it does with an exception of the hook is
  its own business and shows in its outcome.  Its behaviour may depend on how many
  invocations came before, on the URL and on the options.  Another thread may call
  \<open>stop()\<close> while the engine runs or while the downloader sleeps; whether \<open>os.makedirs\<close>
  fails, and with what, is the environment's too.
\<close>

datatype engine_outcome = Raises exn | Returns "pydict option"

record engine_run =
  events :: "pydict list"
  outcome :: engine_outcome
  stop_called :: bool

record env =
  ffmpeg_on_path :: bool
  makedirs_error :: "string \<Rightarrow> exn option"
  engine :: "nat \<Rightarrow> string \<Rightarrow> ydl_opts \<Rightarrow> engine_run"
  stop_during_sleep :: "nat \<Rightarrow> bool"

record sys =
  dl :: downloader
  dirs :: "string list"
  trace :: "effect list"

fun is_extract :: "effect \<Rightarrow> bool" where
  "is_extract (Extract u opts) = True"
| "is_extract _ = False"

fun is_sleep :: "effect \<Rightarrow> bool" where
  "is_sleep (Sleep n) = True"
| "is_sleep _ = False"

definition engine_calls :: "effect list \<Rightarrow> nat" where
  "engine_calls tr = length (filter is_extract tr)"

definition sleep_count :: "effect list \<Rightarrow> nat" where
  "sleep_count tr = length (filter is_sleep tr)"

fun sleeps :: "effect list \<Rightarrow> int list" where
  "sleeps [] = []"
| "sleeps (Sleep n # tr) = n # sleeps tr"
| "sleeps (e # tr) = sleeps tr"

definition check_ffmpeg_available :: "env \<Rightarrow> sys \<Rightarrow> bool \<times> sys" where
  \<comment> \<open>\<open>shutil.which("ffmpeg") is not None\<close>\<close>
  "check_ffmpeg_available ev s = (ffmpeg_on_path ev, s\<lparr>trace := trace s @ [Which ''ffmpeg'']\<rparr>)"

fun path_prefixes :: "string \<Rightarrow> string \<Rightarrow> string list" where
  \<comment> \<open>the directory and its parents, outermost first: the directories \<open>os.makedirs\<close> makes sure of\<close>
  "path_prefixes acc [] = (if acc = [] then [] else [acc])"
| "path_prefixes acc (c # cs) =
     (if c = CHR ''/'' \<and> acc \<noteq> [] \<and> last acc \<noteq> CHR ''/''
      then acc # path_prefixes (acc @ [c]) cs
      else path_prefixes (acc @ [c]) cs)"

definition path_join :: "string \<Rightarrow> string \<Rightarrow> string" where
  \<comment> \<open>\<open>os.path.join(a, b)\<close> of \<open>posixpath\<close>\<close>
  "path_join a b =
     (if b \<noteq> [] \<and> hd b = CHR ''/'' then b
      else if a = [] \<or> last a = CHR ''/'' then a @ b
      else a @ ''/'' @ b)"

definition safe_output_template :: "env \<Rightarrow> string \<Rightarrow> sys \<Rightarrow> (exn + string) \<times> sys" where
  "safe_output_template ev out_dir s =
     (let s1 = s\<lparr>trace := trace s @ [IsDir out_dir]\<rparr>;
          tmpl = path_join out_dir ''%(title)s [%(id)s].%(ext)s''
      in if out_dir \<notin> set (dirs s1) then
           (let s2 = s1\<lparr>trace := trace s1 @ [Makedirs out_dir]\<rparr>
            in case makedirs_error ev out_dir of
                 Some e \<Rightarrow> (Inl e, s2)
               | None \<Rightarrow> (Inr tmpl, s2\<lparr>dirs := dirs s2 @ path_prefixes [] out_dir\<rparr>))
         else (Inr tmpl, s1))"

section \<open>download\<close>

definition build_ydl_opts :: "string \<Rightarrow> bool \<Rightarrow> string \<Rightarrow> int \<Rightarrow> ydl_opts" where
  \<comment> \<open>the dictionary \<open>ydl_opts\<close> after the \<open>update\<close> of its format branch\<close>
  "build_ydl_opts tmpl verb output_format max_retries =
     (let base = \<lparr>outtmpl = tmpl, quiet = (if verb then False else True), no_warnings = True,
                   noplaylist = True, format = ''bestvideo+bestaudio/best'',
                   retries = max_retries, add_metadata = True, merge_output_format = ''mp4'',
                   writethumbnail = False, postprocessors = []\<rparr>
      in if output_format = ''mp3'' then
           base\<lparr>format := ''bestaudio/best'',
                postprocessors :=
                  [[(''key'', ''FFmpegExtractAudio''), (''preferredcodec'', ''mp3''),
                    (''preferredquality'', ''192'')],
                   [(''key'', ''FFmpegMetadata'')]]\<rparr>
         else base\<lparr>format := ''bestvideo+bestaudio/best'', merge_output_format := ''mp4''\<rparr>)"

definition final_path :: "string \<Rightarrow> string \<Rightarrow> pydict \<Rightarrow> string" where
  \<comment> \<open>lines 146 to 150: the path built from the info dictionary\<close>
  "final_path out_dir output_format info =
     (let ext = (if output_format = ''mp3'' then ''mp3'' else ''mp4'');
          title = py_or (dict_get info ''title'') (dict_get info ''id'');
          video_id = dict_get info ''id'';
          filename = py_str title @ '' ['' @ py_str video_id @ ''].'' @ ext
      in path_join out_dir filename)"

definition none_get_error :: exn where
  "none_get_error =
     AttributeError (quoted ''NoneType'' @ '' object has no attribute '' @ quoted ''get'')"

definition run_attempt :: "env \<Rightarrow> string \<Rightarrow> string \<Rightarrow> ydl_opts \<Rightarrow> sys \<Rightarrow> (exn + string) \<times> sys" where
  \<comment> \<open>the body of the \<open>try\<close>: one invocation of the engine, then the final path\<close>
  "run_attempt ev url output_format opts s =
     (let run = engine ev (engine_calls (trace s)) url opts;
          s1 = s\<lparr>trace := trace s @ [Extract url opts], dl := ingest (events run) (dl s)\<rparr>;
          s2 = (if stop_called run then s1\<lparr>dl := stop (dl s1)\<rparr> else s1)
      in case outcome run of
           Raises e \<Rightarrow> (Inl e, s2)
         | Returns None \<Rightarrow> (Inl none_get_error, s2)
         | Returns (Some info) \<Rightarrow> (Inr (final_path (output_dir (dl s2)) output_format info), s2))"

definition sleep :: "env \<Rightarrow> int \<Rightarrow> sys \<Rightarrow> sys" where
  \<comment> \<open>\<open>time.sleep(n)\<close>\<close>
  "sleep ev n s =
     (let s1 = s\<lparr>trace := trace s @ [Sleep n]\<rparr>
      in if stop_during_sleep ev (sleep_count (trace s)) then s1\<lparr>dl := stop (dl s1)\<rparr> else s1)"

definition stopped_error :: exn where
  "stopped_error = RuntimeError ''Download stopped by user.''"

definition all_failed_error :: "exn option \<Rightarrow> exn" where
  \<comment> \<open>\<open>RuntimeError(f"All attempts failed. Last error: {last_err}")\<close>\<close>
  "all_failed_error last_err =
     RuntimeError (''All attempts failed. Last error: ''
                   @ (case last_err of None \<Rightarrow> ''None'' | Some e \<Rightarrow> exn_str e))"

fun download_loop ::
  "env \<Rightarrow> string \<Rightarrow> string \<Rightarrow> ydl_opts \<Rightarrow> int list \<Rightarrow> exn option \<Rightarrow> sys \<Rightarrow> (exn + string) \<times> sys"
where
  \<comment> \<open>\<open>for attempt in range(1, max_retries + 1)\<close> and the \<open>raise\<close> after it\<close>
  "download_loop ev url output_format opts [] last_err s = (Inl (all_failed_error last_err), s)"
| "download_loop ev url output_format opts (attempt # rest) last_err s =
     (if stop_requested (dl s) then (Inl stopped_error, s)
      else (case run_attempt ev url output_format opts s of
              (Inr final, s1) \<Rightarrow> (Inr final, s1)
            | (Inl e, s1) \<Rightarrow>
                download_loop ev url output_format opts rest (Some e) (sleep ev (1 + attempt) s1)))"

definition format_error :: exn where
  "format_error =
     ValueError (''output_format must be '' @ quoted ''mp4'' @ '' or '' @ quoted ''mp3'')"

definition ffmpeg_error :: exn where
  "ffmpeg_error =
     RuntimeError (''FFmpeg is required for MP3 conversion but was not found on PATH. ''
                   @ ''Install ffmpeg and try again.'')"

definition download_from_template ::
  "env \<Rightarrow> string \<Rightarrow> string \<Rightarrow> int \<Rightarrow> sys \<Rightarrow> (exn + string) \<times> sys" where
  \<comment> \<open>lines 107 to 159\<close>
  "download_from_template ev url output_format max_retries s =
     (case safe_output_template ev (output_dir (dl s)) s of
        (Inl e, s1) \<Rightarrow> (Inl e, s1)
      | (Inr tmpl, s1) \<Rightarrow>
          download_loop ev url output_format
            (build_ydl_opts tmpl (verbose (dl s1)) output_format max_retries)
            [1..max_retries] None s1)"

definition download :: "env \<Rightarrow> string \<Rightarrow> string \<Rightarrow> int \<Rightarrow> sys \<Rightarrow> (exn + string) \<times> sys" where
  \<comment> \<open>\<open>YTDLDownloader.download(url, output_format, max_retries)\<close>\<close>
  "download ev url output_format max_retries s =
     (if output_format \<notin> set [''mp4'', ''mp3''] then (Inl format_error, s)
      else if output_format = ''mp3'' then
        (case check_ffmpeg_available ev s of
           (avail, s1) \<Rightarrow>
             if \<not> avail then (Inl ffmpeg_error, s1)
             else download_from_template ev url output_format max_retries s1)
      else download_from_template ev url output_format max_retries s)"

fun download_all ::
  "env \<Rightarrow> (string \<times> string \<times> string \<times> int) list \<Rightarrow> sys \<Rightarrow> (exn + string) list \<times> sys"
where
  \<comment> \<open>the GUI's \<open>do_download\<close>, once per click, on the one downloader object it holds:
      \<open>downloader.output_dir = outd\<close>, then \<open>downloader.download(url, output_format=fmt)\<close>\<close>
  "download_all ev [] s = ([], s)"
| "download_all ev ((outd, url, fmt, max_retries) # reqs) s =
     (case download ev url fmt max_retries (s\<lparr>dl := (dl s)\<lparr>output_dir := outd\<rparr>\<rparr>) of
        (r, s1) \<Rightarrow> (case download_all ev reqs s1 of (rs, s2) \<Rightarrow> (r # rs, s2)))"

section \<open>Vocabulary of the properties\<close>

definition request_ready :: "env \<Rightarrow> string \<Rightarrow> sys \<Rightarrow> bool" where
  \<comment> \<open>the request passes the checks before the loop: a supported format, ffmpeg on PATH
      when the format is mp3, and an output directory that exists or can be created\<close>
  "request_ready ev fmt s =
     ((fmt = ''mp4'' \<or> (fmt = ''mp3'' \<and> ffmpeg_on_path ev))
      \<and> (output_dir (dl s) \<in> set (dirs s) \<or> makedirs_error ev (output_dir (dl s)) = None))"

definition request_opts :: "sys \<Rightarrow> string \<Rightarrow> int \<Rightarrow> ydl_opts" where
  \<comment> \<open>the options \<open>download\<close> hands to the engine for this downloader and request\<close>
  "request_opts s fmt max_retries =
     build_ydl_opts (path_join (output_dir (dl s)) ''%(title)s [%(id)s].%(ext)s'')
       (verbose (dl s)) fmt max_retries"

fun percent_ok :: "rat option \<Rightarrow> bool" where
  "percent_ok None = True"
| "percent_ok (Some p) = (0 \<le> p \<and> p \<le> 100)"

fun counts_in_bounds :: "pyval \<Rightarrow> pyval \<Rightarrow> bool" where
  \<comment> \<open>known byte counts with \<open>0 \<le> downloaded \<le> total\<close> and \<open>total > 0\<close>\<close>
  "counts_in_bounds (PyInt dn) (PyInt t) = (0 < t \<and> 0 \<le> dn \<and> dn \<le> t)"
| "counts_in_bounds _ _ = False"

definition downloading_in_bounds :: "pydict \<Rightarrow> bool" where
  "downloading_in_bounds d =
     (dict_get d ''status'' = PyStr ''downloading''
      \<and> counts_in_bounds (event_downloaded d) (event_total d))"

section \<open>Concrete worlds for the examples\<close>

definition failing_engine :: "nat \<Rightarrow> string \<Rightarrow> ydl_opts \<Rightarrow> engine_run" where
  \<comment> \<open>an engine that raises on every invocation\<close>
  "failing_engine n u opts =
     \<lparr>events = [], outcome = Raises (DownloadError ''network timeout''), stop_called = False\<rparr>"

definition second_try_engine :: "nat \<Rightarrow> string \<Rightarrow> ydl_opts \<Rightarrow> engine_run" where
  \<comment> \<open>the engine of the scenario: a timeout first, then the clip\<close>
  "second_try_engine n u opts =
     \<lparr>events = [],
      outcome = (if n = 0 then Raises (DownloadError ''network timeout'')
                 else Returns (Some [(''title'', PyStr ''Clip''), (''id'', PyStr ''abc123'')])),
      stop_called = False\<rparr>"

definition world :: "(nat \<Rightarrow> string \<Rightarrow> ydl_opts \<Rightarrow> engine_run) \<Rightarrow> env" where
  \<comment> \<open>ffmpeg installed, every directory creatable, nobody calls \<open>stop()\<close> during a sleep\<close>
  "world eng =
     \<lparr>ffmpeg_on_path = True, makedirs_error = (\<lambda>d. None), engine = eng,
      stop_during_sleep = (\<lambda>n. False)\<rparr>"

definition fresh :: sys where
  \<comment> \<open>a new downloader for \<open>/tmp/out\<close>, which does not exist yet\<close>
  "fresh = \<lparr>dl = init ''/tmp/out'' False, dirs = [], trace = []\<rparr>"

definition stop_in_first_sleep :: env where
  \<comment> \<open>another thread calls \<open>stop()\<close> during the first backoff sleep\<close>
  "stop_in_first_sleep = (world failing_engine)\<lparr>stop_during_sleep := (\<lambda>n. n = 0)\<rparr>"

definition read_only_world :: env where
  \<comment> \<open>no directory can be created\<close>
  "read_only_world =
     (world failing_engine)\<lparr>makedirs_error := (\<lambda>d. Some (OSError ''[Errno 13] Permission denied''))\<rparr>"

section \<open>Auxiliary facts\<close>

lemma engine_calls_append: "engine_calls (a @ b) = engine_calls a + engine_calls b"
  by (simp add: engine_calls_def)

lemma sleeps_append: "sleeps (a @ b) = sleeps a @ sleeps b"
  by (induction a rule: sleeps.induct) simp_all

lemma progress_hook_fields:
  "output_dir (snd (progress_hook d self)) = output_dir self
   \<and> verbose (snd (progress_hook d self)) = verbose self
   \<and> stop_requested (snd (progress_hook d self)) = stop_requested self"
  by (simp add: progress_hook_def Let_def split: sum.splits)

lemma ingest_fields:
  "output_dir (ingest ds self) = output_dir self
   \<and> verbose (ingest ds self) = verbose self
   \<and> stop_requested (ingest ds self) = stop_requested self"
  by (induction ds arbitrary: self) (simp_all add: progress_hook_fields)

lemma run_attempt_raises:
  assumes "outcome (engine ev (engine_calls (trace s)) url opts) = Raises e"
    and "\<not> stop_called (engine ev (engine_calls (trace s)) url opts)"
  shows "run_attempt ev url fmt opts s =
           (Inl e, s\<lparr>trace := trace s @ [Extract url opts],
                     dl := ingest (events (engine ev (engine_calls (trace s)) url opts)) (dl s)\<rparr>)"
  using assms by (simp add: run_attempt_def Let_def)

lemma run_attempt_returns:
  assumes "outcome (engine ev (engine_calls (trace s)) url opts) = Returns (Some info)"
  shows "fst (run_attempt ev url fmt opts s) = Inr (final_path (output_dir (dl s)) fmt info)"
    and "trace (snd (run_attempt ev url fmt opts s)) = trace s @ [Extract url opts]"
    and "dirs (snd (run_attempt ev url fmt opts s)) = dirs s"
  using assms by (simp_all add: run_attempt_def Let_def ingest_fields stop_def)

lemma run_attempt_effects:
  "trace (snd (run_attempt ev url fmt opts s)) = trace s @ [Extract url opts]
   \<and> dirs (snd (run_attempt ev url fmt opts s)) = dirs s
   \<and> output_dir (dl (snd (run_attempt ev url fmt opts s))) = output_dir (dl s)
   \<and> verbose (dl (snd (run_attempt ev url fmt opts s))) = verbose (dl s)
   \<and> (stop_requested (dl s) \<longrightarrow> stop_requested (dl (snd (run_attempt ev url fmt opts s))))"
  by (simp add: run_attempt_def Let_def ingest_fields stop_def split: engine_outcome.splits option.splits)

lemma sleep_effects:
  "trace (sleep ev n s) = trace s @ [Sleep n]
   \<and> dirs (sleep ev n s) = dirs s
   \<and> output_dir (dl (sleep ev n s)) = output_dir (dl s)
   \<and> verbose (dl (sleep ev n s)) = verbose (dl s)
   \<and> stop_requested (dl (sleep ev n s)) = (stop_requested (dl s) \<or> stop_during_sleep ev (sleep_count (trace s)))"
  by (simp add: sleep_def Let_def stop_def)

lemma loop_failures:
  assumes nostop: "\<And>n. \<not> stop_called (engine ev n url opts)" "\<And>n. \<not> stop_during_sleep ev n"
  shows "\<not> stop_requested (dl s) \<Longrightarrow>
    (\<And>i. i < length pre \<Longrightarrow> outcome (engine ev (engine_calls (trace s) + i) url opts)
                    = Raises (err (engine_calls (trace s) + i))) \<Longrightarrow>
    \<exists>s'. download_loop ev url fmt opts (pre @ rest) last_err s
            = download_loop ev url fmt opts rest
                (if pre = [] then last_err else Some (err (engine_calls (trace s) + length pre - 1))) s'
        \<and> trace s' = trace s @ concat (map (\<lambda>a. [Extract url opts, Sleep (1 + a)]) pre)
        \<and> dirs s' = dirs s \<and> \<not> stop_requested (dl s')
        \<and> output_dir (dl s') = output_dir (dl s) \<and> verbose (dl s') = verbose (dl s)"
proof (induction pre arbitrary: s last_err)
  case Nil
  then show ?case by (intro exI[of _ s]) simp
next
  case (Cons a pre)
  let ?k = "engine_calls (trace s)"
  let ?run = "engine ev ?k url opts"
  let ?s1 = "s\<lparr>trace := trace s @ [Extract url opts], dl := ingest (events ?run) (dl s)\<rparr>"
  let ?s2 = "sleep ev (1 + a) ?s1"
  have out0: "outcome ?run = Raises (err ?k)"
    using Cons.prems(2)[of 0] by simp
  have ra: "run_attempt ev url fmt opts s = (Inl (err ?k), ?s1)"
    using run_attempt_raises[OF out0 nostop(1)] .
  have tr2: "trace ?s2 = trace s @ [Extract url opts, Sleep (1 + a)]"
    by (simp add: sleep_effects)
  have k2: "engine_calls (trace ?s2) = ?k + 1"
    by (subst tr2) (simp add: engine_calls_def)
  have ns2: "\<not> stop_requested (dl ?s2)"
    using Cons.prems(1) nostop(2) by (simp add: sleep_effects ingest_fields)
  have pre2: "\<And>i. i < length pre \<Longrightarrow>
      outcome (engine ev (engine_calls (trace ?s2) + i) url opts)
        = Raises (err (engine_calls (trace ?s2) + i))"
  proof -
    fix i assume "i < length pre"
    then have "Suc i < length (a # pre)" by simp
    from Cons.prems(2)[OF this] show
      "outcome (engine ev (engine_calls (trace ?s2) + i) url opts)
        = Raises (err (engine_calls (trace ?s2) + i))"
      by (simp add: k2)
  qed
  from Cons.IH[OF ns2 pre2, of "Some (err ?k)"] obtain s' where
    s': "download_loop ev url fmt opts (pre @ rest) (Some (err ?k)) ?s2
           = download_loop ev url fmt opts rest
               (if pre = [] then Some (err ?k)
                else Some (err (engine_calls (trace ?s2) + length pre - 1))) s'"
      "trace s' = trace ?s2 @ concat (map (\<lambda>a. [Extract url opts, Sleep (1 + a)]) pre)"
      "dirs s' = dirs ?s2" "\<not> stop_requested (dl s')"
      "output_dir (dl s') = output_dir (dl ?s2)" "verbose (dl s') = verbose (dl ?s2)"
    by blast
  have step: "download_loop ev url fmt opts ((a # pre) @ rest) last_err s
        = download_loop ev url fmt opts (pre @ rest) (Some (err ?k)) ?s2"
    using Cons.prems(1) by (simp add: ra)
  have lasteq: "(if pre = [] then Some (err ?k)
                else Some (err (engine_calls (trace ?s2) + length pre - 1)))
        = Some (err (?k + length (a # pre) - 1))"
    by (cases pre) (simp_all add: k2)
  show ?case
    apply (rule exI[of _ s'])
    using s' step lasteq tr2
    by (simp add: sleep_effects ingest_fields)
qed

lemma path_prefixes_self:
  "acc @ cs \<noteq> [] \<Longrightarrow> acc @ cs \<in> set (path_prefixes acc cs)"
proof (induction cs arbitrary: acc)
  case Nil
  then show ?case by simp
next
  case (Cons c cs)
  have "(acc @ [c]) @ cs \<in> set (path_prefixes (acc @ [c]) cs)"
    by (rule Cons.IH) simp
  then show ?case by auto
qed

lemma path_prefixes_parent:
  "acc @ p \<noteq> [] \<Longrightarrow> last (acc @ p) \<noteq> CHR ''/'' \<Longrightarrow>
   acc @ p \<in> set (path_prefixes acc (p @ CHR ''/'' # rest))"
proof (induction p arbitrary: acc)
  case Nil
  then show ?case by simp
next
  case (Cons c p)
  have "(acc @ [c]) @ p \<in> set (path_prefixes (acc @ [c]) (p @ CHR ''/'' # rest))"
    using Cons.prems by (intro Cons.IH) simp_all
  then show ?case by auto
qed

lemma template_existing:
  "out_dir \<in> set (dirs s) \<Longrightarrow>
   safe_output_template ev out_dir s
     = (Inr (path_join out_dir ''%(title)s [%(id)s].%(ext)s''),
        s\<lparr>trace := trace s @ [IsDir out_dir]\<rparr>)"
  by (simp add: safe_output_template_def Let_def)

lemma template_created:
  "out_dir \<notin> set (dirs s) \<Longrightarrow> makedirs_error ev out_dir = None \<Longrightarrow>
   safe_output_template ev out_dir s
     = (Inr (path_join out_dir ''%(title)s [%(id)s].%(ext)s''),
        s\<lparr>trace := trace s @ [IsDir out_dir, Makedirs out_dir],
          dirs := dirs s @ path_prefixes [] out_dir\<rparr>)"
  by (simp add: safe_output_template_def Let_def)

lemma template_refused:
  "out_dir \<notin> set (dirs s) \<Longrightarrow> makedirs_error ev out_dir = Some e \<Longrightarrow>
   safe_output_template ev out_dir s
     = (Inl e, s\<lparr>trace := trace s @ [IsDir out_dir, Makedirs out_dir]\<rparr>)"
  by (simp add: safe_output_template_def Let_def)

lemma download_ready:
  assumes "request_ready ev fmt s"
  shows "\<exists>s1. download ev url fmt n s
                = download_loop ev url fmt (request_opts s fmt n) [1..n] None s1
            \<and> dl s1 = dl s
            \<and> engine_calls (trace s1) = engine_calls (trace s)
            \<and> sleep_count (trace s1) = sleep_count (trace s)
            \<and> sleeps (trace s1) = sleeps (trace s)"
proof -
  let ?d = "output_dir (dl s)"
  let ?s0 = "s\<lparr>trace := trace s @ (if fmt = ''mp3'' then [Which ''ffmpeg''] else [])\<rparr>"
  have fmt: "fmt = ''mp4'' \<or> (fmt = ''mp3'' \<and> ffmpeg_on_path ev)"
    using assms by (simp add: request_ready_def)
  have d0: "download ev url fmt n s = download_from_template ev url fmt n ?s0"
    using fmt by (auto simp: download_def check_ffmpeg_available_def)
  have dir: "?d \<in> set (dirs s) \<or> makedirs_error ev ?d = None"
    using assms by (simp add: request_ready_def)
  show ?thesis
  proof (cases "?d \<in> set (dirs s)")
    case True
    then have "safe_output_template ev (output_dir (dl ?s0)) ?s0
       = (Inr (path_join ?d ''%(title)s [%(id)s].%(ext)s''),
          ?s0\<lparr>trace := trace ?s0 @ [IsDir ?d]\<rparr>)"
      using template_existing[of ?d ?s0 ev] by simp
    then have "download ev url fmt n s
       = download_loop ev url fmt (request_opts s fmt n) [1..n] None
           (?s0\<lparr>trace := trace ?s0 @ [IsDir ?d]\<rparr>)"
      by (simp add: d0 download_from_template_def request_opts_def)
    then show ?thesis
      by (intro exI[of _ "?s0\<lparr>trace := trace ?s0 @ [IsDir ?d]\<rparr>"])
         (simp add: engine_calls_def sleep_count_def sleeps_append)
  next
    case False
    with dir have ok: "makedirs_error ev ?d = None" by simp
    let ?s1 = "?s0\<lparr>trace := trace ?s0 @ [IsDir ?d, Makedirs ?d],
                   dirs := dirs ?s0 @ path_prefixes [] ?d\<rparr>"
    have "safe_output_template ev (output_dir (dl ?s0)) ?s0
       = (Inr (path_join ?d ''%(title)s [%(id)s].%(ext)s''), ?s1)"
      using template_created[of ?d ?s0 ev] False ok by simp
    then have "download ev url fmt n s
       = download_loop ev url fmt (request_opts s fmt n) [1..n] None ?s1"
      by (simp add: d0 download_from_template_def request_opts_def)
    then show ?thesis
      by (intro exI[of _ ?s1]) (simp add: engine_calls_def sleep_count_def sleeps_append)
  qed
qed

lemma attempts_trace_calls:
  "engine_calls (concat (map (\<lambda>a. [Extract url opts, Sleep (1 + a)]) as)) = length as"
  by (induction as) (simp_all add: engine_calls_def)

lemma attempts_trace_sleeps:
  "sleeps (concat (map (\<lambda>a. [Extract url opts, Sleep (1 + a)]) as)) = map (\<lambda>a. 1 + a) as"
  by (induction as) simp_all

lemma attempts_trace_last:
  "as \<noteq> [] \<Longrightarrow>
   last (tr @ concat (map (\<lambda>a. [Extract url opts, Sleep (1 + a)]) as)) = Sleep (1 + last as)"
  by (induction as arbitrary: tr rule: rev_induct) simp_all

lemma last_upto_1: "1 \<le> N \<Longrightarrow> last [1..N] = N"
  by (simp add: upto_rec2)

lemma upto_1_nonempty: "1 \<le> N \<Longrightarrow> [1..N] \<noteq> []"
  by (simp add: upto_rec2)

lemma download_all_fail:
  assumes ready: "request_ready ev fmt s" and N: "1 \<le> N"
    and run: "\<not> stop_requested (dl s)"
    and nostop: "\<And>n. \<not> stop_called (engine ev n url (request_opts s fmt N))"
                "\<And>n. \<not> stop_during_sleep ev n"
    and fails: "\<And>n. outcome (engine ev n url (request_opts s fmt N)) = Raises (err n)"
  shows "fst (download ev url fmt N s)
           = Inl (all_failed_error (Some (err (engine_calls (trace s) + nat N - 1))))"
    and "engine_calls (trace (snd (download ev url fmt N s))) = engine_calls (trace s) + nat N"
    and "sleeps (trace (snd (download ev url fmt N s)))
           = sleeps (trace s) @ map (\<lambda>a. 1 + a) [1..N]"
    and "last (trace (snd (download ev url fmt N s))) = Sleep (1 + N)"
proof -
  let ?opts = "request_opts s fmt N"
  from download_ready[OF ready, of url N] obtain s1 where
    d: "download ev url fmt N s = download_loop ev url fmt ?opts [1..N] None s1"
    and s1: "dl s1 = dl s" "engine_calls (trace s1) = engine_calls (trace s)"
            "sleeps (trace s1) = sleeps (trace s)"
    by blast
  have ns1: "\<not> stop_requested (dl s1)" using run s1 by simp
  from loop_failures[where ev = ev and url = url and opts = ?opts and s = s1
        and pre = "[1..N]" and rest = "[]" and err = err and fmt = fmt and last_err = None,
        OF nostop ns1 fails]
  obtain s' where
    l: "download_loop ev url fmt ?opts ([1..N] @ []) None s1
          = download_loop ev url fmt ?opts []
              (if [1..N] = [] then None
               else Some (err (engine_calls (trace s1) + length [1..N] - 1))) s'"
    and tr: "trace s' = trace s1 @ concat (map (\<lambda>a. [Extract url ?opts, Sleep (1 + a)]) [1..N])"
    by blast
  have res: "download ev url fmt N s
      = (Inl (all_failed_error (Some (err (engine_calls (trace s) + nat N - 1)))), s')"
    using d l upto_1_nonempty[OF N] s1 by simp
  show "fst (download ev url fmt N s)
           = Inl (all_failed_error (Some (err (engine_calls (trace s) + nat N - 1))))"
    by (simp add: res)
  show "engine_calls (trace (snd (download ev url fmt N s))) = engine_calls (trace s) + nat N"
    by (simp add: res tr engine_calls_append attempts_trace_calls s1)
  show "sleeps (trace (snd (download ev url fmt N s)))
           = sleeps (trace s) @ map (\<lambda>a. 1 + a) [1..N]"
    by (simp add: res tr sleeps_append attempts_trace_sleeps s1)
  show "last (trace (snd (download ev url fmt N s))) = Sleep (1 + N)"
    using attempts_trace_last[OF upto_1_nonempty[OF N], of "trace s1" url ?opts]
    by (simp add: res tr last_upto_1[OF N])
qed

lemma final_path_supported:
  "fmt = ''mp4'' \<or> fmt = ''mp3'' \<Longrightarrow>
   final_path d fmt info
     = path_join d (py_str (py_or (dict_get info ''title'') (dict_get info ''id''))
                    @ '' ['' @ py_str (dict_get info ''id'') @ ''].'' @ fmt)"
  by (auto simp: final_path_def Let_def)

lemma loop_when_stopped:
  "stop_requested (dl s) \<Longrightarrow>
   isl (fst (download_loop ev url fmt opts as last_err s))
   \<and> snd (download_loop ev url fmt opts as last_err s) = s"
  by (cases as) simp_all

lemma template_effects:
  "dl (snd (safe_output_template ev d s)) = dl s
   \<and> engine_calls (trace (snd (safe_output_template ev d s))) = engine_calls (trace s)"
  by (simp add: safe_output_template_def Let_def engine_calls_def split: option.splits)

lemma from_template_when_stopped:
  assumes "stop_requested (dl s)"
  shows "isl (fst (download_from_template ev url fmt N s))
       \<and> engine_calls (trace (snd (download_from_template ev url fmt N s))) = engine_calls (trace s)
       \<and> stop_requested (dl (snd (download_from_template ev url fmt N s)))"
proof -
  obtain r s1 where t: "safe_output_template ev (output_dir (dl s)) s = (r, s1)"
    by (cases "safe_output_template ev (output_dir (dl s)) s") blast
  from template_effects[of ev "output_dir (dl s)" s] t
  have s1: "dl s1 = dl s" "engine_calls (trace s1) = engine_calls (trace s)" by simp_all
  show ?thesis
  proof (cases r)
    case (Inl e)
    then show ?thesis using t s1 assms by (simp add: download_from_template_def)
  next
    case (Inr tmpl)
    have st1: "stop_requested (dl s1)" using assms s1 by simp
    from loop_when_stopped[OF st1] Inr t s1 st1 show ?thesis
      by (simp add: download_from_template_def)
  qed
qed

lemma download_when_stopped:
  assumes "stop_requested (dl s)"
  shows "isl (fst (download ev url fmt N s))
       \<and> engine_calls (trace (snd (download ev url fmt N s))) = engine_calls (trace s)
       \<and> stop_requested (dl (snd (download ev url fmt N s)))"
proof -
  let ?s0 = "s\<lparr>trace := trace s @ [Which ''ffmpeg'']\<rparr>"
  have st0: "stop_requested (dl ?s0)" using assms by simp
  have c0: "engine_calls (trace ?s0) = engine_calls (trace s)" by (simp add: engine_calls_def)
  consider (bad) "fmt \<noteq> ''mp4''" "fmt \<noteq> ''mp3''"
    | (noff) "fmt = ''mp3''" "\<not> ffmpeg_on_path ev"
    | (mp3) "fmt = ''mp3''" "ffmpeg_on_path ev"
    | (mp4) "fmt = ''mp4''"
    by blast
  then show ?thesis
  proof cases
    case bad
    then show ?thesis using assms by (simp add: download_def)
  next
    case noff
    then show ?thesis using assms
      by (simp add: download_def check_ffmpeg_available_def engine_calls_def)
  next
    case mp3
    then have "download ev url fmt N s = download_from_template ev url fmt N ?s0"
      by (simp add: download_def check_ffmpeg_available_def)
    then show ?thesis using from_template_when_stopped[OF st0, of ev url fmt N] c0 by simp
  next
    case mp4
    then have "download ev url fmt N s = download_from_template ev url fmt N s"
      by (simp add: download_def)
    then show ?thesis using from_template_when_stopped[OF assms, of ev url fmt N] by simp
  qed
qed

lemma download_all_when_stopped:
  "stop_requested (dl s) \<Longrightarrow>
   list_all isl (fst (download_all ev reqs s))
   \<and> engine_calls (trace (snd (download_all ev reqs s))) = engine_calls (trace s)
   \<and> stop_requested (dl (snd (download_all ev reqs s)))"
proof (induction reqs arbitrary: s)
  case Nil
  then show ?case by simp
next
  case (Cons req reqs)
  obtain outd url fmt N where req: "req = (outd, url, fmt, N)" by (cases req) auto
  let ?s0 = "s\<lparr>dl := (dl s)\<lparr>output_dir := outd\<rparr>\<rparr>"
  have st0: "stop_requested (dl ?s0)" using Cons.prems by simp
  obtain r s1 where d: "download ev url fmt N ?s0 = (r, s1)"
    by (cases "download ev url fmt N ?s0") blast
  from download_when_stopped[OF st0, of ev url fmt N] d
  have r: "isl r" and c: "engine_calls (trace s1) = engine_calls (trace s)"
    and st1: "stop_requested (dl s1)" by simp_all
  obtain rs s2 where a: "download_all ev reqs s1 = (rs, s2)"
    by (cases "download_all ev reqs s1") blast
  from Cons.IH[OF st1] a
  have "list_all isl rs" "engine_calls (trace s2) = engine_calls (trace s1)"
    "stop_requested (dl s2)" by simp_all
  then show ?case using r c by (simp add: req d a)
qed

lemma human_bytes_int: "\<exists>h. human_bytes (PyInt n) = Inr h"
  by (cases "human_loop (of_int n) 0") simp

lemma log_downloading_ints: "log_downloading p (PyInt dn) (PyInt t) = None"
proof -
  obtain h1 h2 where "human_bytes (PyInt dn) = Inr h1" "human_bytes (PyInt t) = Inr h2"
    using human_bytes_int by blast
  then show ?thesis
    by (cases p) (simp_all only: log_downloading_def option.case sum.case)
qed

lemma compute_percent_ints:
  "compute_percent (PyInt dn) (PyInt t)
     = Inr (if 0 < t \<and> dn \<noteq> 0 then Some (of_int dn / of_int t * 100) else None)"
  by (auto simp: compute_percent_def)

lemma progress_hook_ints:
  assumes "dict_get e ''status'' = PyStr ''downloading''"
    and "event_downloaded e = PyInt dn" and "event_total e = PyInt t"
  shows "progress_hook e self
     = (None, self\<lparr>last_progress := Downloading
          \<lparr>downloaded_bytes = PyInt dn, total_bytes = PyInt t,
           percent = (if 0 < t \<and> dn \<noteq> 0 then Some (of_int dn / of_int t * 100) else None),
           speed = dict_get e ''speed'', eta = dict_get e ''eta''\<rparr>\<rparr>)"
  using assms
  by (simp add: progress_hook_def Let_def compute_percent_ints log_downloading_ints)

lemma hook_percent_ok:
  assumes "downloading_in_bounds e"
  shows "percent_ok (progress_percent (last_progress (snd (progress_hook e self))))"
proof -
  from assms have st: "dict_get e ''status'' = PyStr ''downloading''"
    and b: "counts_in_bounds (event_downloaded e) (event_total e)"
    by (simp_all add: downloading_in_bounds_def)
  from b obtain dn t where dn: "event_downloaded e = PyInt dn" and t: "event_total e = PyInt t"
    and r: "0 < t" "0 \<le> dn" "dn \<le> t"
    by (cases "event_downloaded e"; cases "event_total e") simp_all
  have "0 \<le> (of_int dn :: rat) / of_int t * 100" using r by simp
  moreover have "(of_int dn :: rat) / of_int t * 100 \<le> 100"
    using r by (simp add: pos_divide_le_eq)
  ultimately show ?thesis
    by (simp add: progress_hook_ints[OF st dn t])
qed

lemma monitor_value_clamped: "0 \<le> monitor_value st \<and> monitor_value st \<le> 100"
  by (simp add: monitor_value_def Let_def)

section \<open>The properties\<close>

text \<open>
  C1. An engine that raises on every invocation, \<open>N \<ge> 1\<close> attempts, no cancellation:
  \<open>download\<close> invokes the engine exactly \<open>N\<close> times and sleeps \<open>1 + attempt\<close> after
  every failed attempt, the last one included: the sleeps are \<open>2, 3, \<dots>, N + 1\<close> and the
  last effect of the call is \<open>Sleep (N + 1)\<close>.  The specification has a wait between
  consecutive attempts only: \<open>N - 1\<close> sleeps, and none after the \<open>N\<close>th attempt.
\<close>

theorem exhausted_attempts_effects:
  assumes "request_ready ev fmt s" and "1 \<le> N" and "\<not> stop_requested (dl s)"
    and "\<And>n. \<not> stop_called (engine ev n url (request_opts s fmt N))"
    and "\<And>n. \<not> stop_during_sleep ev n"
    and "\<And>n. outcome (engine ev n url (request_opts s fmt N)) = Raises (err n)"
  shows "engine_calls (trace (snd (download ev url fmt N s))) = engine_calls (trace s) + nat N
       \<and> sleeps (trace (snd (download ev url fmt N s)))
           = sleeps (trace s) @ map (\<lambda>a. 1 + a) [1..N]
       \<and> last (trace (snd (download ev url fmt N s))) = Sleep (1 + N)"
  using download_all_fail(2,3,4)[OF assms] by simp

theorem exhausted_attempts_effects_witness:
  "engine_calls (trace (snd (download (world failing_engine) ''https://x/video'' ''mp4'' 2 fresh)))
     = 2
   \<and> sleeps (trace (snd (download (world failing_engine) ''https://x/video'' ''mp4'' 2 fresh)))
     = [2, 3]
   \<and> last (trace (snd (download (world failing_engine) ''https://x/video'' ''mp4'' 2 fresh)))
     = Sleep 3"
proof -
  have r: "request_ready (world failing_engine) ''mp4'' fresh"
    by (simp add: request_ready_def world_def fresh_def)
  have n: "(1::int) \<le> 2" by simp
  have ns: "\<not> stop_requested (dl fresh)" by (simp add: fresh_def init_def)
  have a: "\<And>n. \<not> stop_called (engine (world failing_engine) n ''https://x/video''
                      (request_opts fresh ''mp4'' 2))"
    by (simp add: world_def failing_engine_def)
  have b: "\<And>n. \<not> stop_during_sleep (world failing_engine) n"
    by (simp add: world_def)
  have c: "\<And>n. outcome (engine (world failing_engine) n ''https://x/video''
                      (request_opts fresh ''mp4'' 2))
              = Raises ((\<lambda>n. DownloadError ''network timeout'') n)"
    by (simp add: world_def failing_engine_def)
  have u: "[1..2::int] = [1, 2]" by (simp add: upto_rec1)
  from exhausted_attempts_effects[OF r n ns a b c] show ?thesis
    by (simp add: u fresh_def engine_calls_def)
qed

text \<open>
  C2. The hook stores \<open>downloaded / total * 100\<close> unclamped, so a downloaded count above
  the total gives a percentage above 100 (the GUI monitor clamps what it displays).  For
  every sequence of "downloading" events whose byte counts are known with
  \<open>0 \<le> downloaded \<le> total\<close> and \<open>total > 0\<close>, the percent of the snapshot is absent or
  in \<open>[0, 100]\<close>.
\<close>

theorem percent_within_bounds:
  "list_all downloading_in_bounds es \<Longrightarrow>
   percent_ok (progress_percent (last_progress self)) \<Longrightarrow>
   percent_ok (progress_percent (last_progress (ingest es self)))"
proof (induction es arbitrary: self)
  case Nil
  then show ?case by simp
next
  case (Cons e es)
  then have "downloading_in_bounds e" and rest: "list_all downloading_in_bounds es" by simp_all
  from hook_percent_ok[OF this(1), of self] Cons.IH[OF rest] show ?case by simp
qed

theorem percent_within_bounds_witness:
  "percent_ok (progress_percent (last_progress (ingest
      [[(''status'', PyStr ''downloading''), (''downloaded_bytes'', PyInt 50),
        (''total_bytes'', PyInt 100)],
       [(''status'', PyStr ''downloading''), (''downloaded_bytes'', PyInt 100),
        (''total_bytes_estimate'', PyInt 100)]]
      (init ''/tmp/out'' False))))"
proof (rule percent_within_bounds)
  show "list_all downloading_in_bounds
      [[(''status'', PyStr ''downloading''), (''downloaded_bytes'', PyInt 50),
        (''total_bytes'', PyInt 100)],
       [(''status'', PyStr ''downloading''), (''downloaded_bytes'', PyInt 100),
        (''total_bytes_estimate'', PyInt 100)]]"
    by (simp add: downloading_in_bounds_def dict_get_def dict_get_default_def
        event_downloaded_def event_total_def py_or_def)
  show "percent_ok (progress_percent (last_progress (init ''/tmp/out'' False)))"
    by (simp add: init_def)
qed

theorem percent_above_100:
  "progress_percent (last_progress (ingest
      [[(''status'', PyStr ''downloading''), (''downloaded_bytes'', PyInt 200),
        (''total_bytes'', PyInt 100)]]
      (init ''/tmp/out'' False))) = Some 200
   \<and> \<not> percent_ok (progress_percent (last_progress (ingest
      [[(''status'', PyStr ''downloading''), (''downloaded_bytes'', PyInt 200),
        (''total_bytes'', PyInt 100)]]
      (init ''/tmp/out'' False))))"
proof -
  let ?e = "[(''status'', PyStr ''downloading''), (''downloaded_bytes'', PyInt 200),
             (''total_bytes'', PyInt 100)]"
  have s: "dict_get ?e ''status'' = PyStr ''downloading''" by (simp add: dict_get_def)
  have d: "event_downloaded ?e = PyInt 200"
    by (simp add: event_downloaded_def dict_get_default_def)
  have t: "event_total ?e = PyInt 100" by (simp add: event_total_def dict_get_def py_or_def)
  show ?thesis by (simp add: progress_hook_ints[OF s d t])
qed

text \<open>
  C3. When all \<open>N\<close> attempts fail, the error surfaced is the \<open>RuntimeError\<close> whose
  message is "All attempts failed. Last error: " followed by the text of the error of the
  \<open>N\<close>th engine invocation.  The number of attempts is not part of it: one and two
  failed attempts surface the same error.
\<close>

theorem exhausted_attempts_error:
  assumes "request_ready ev fmt s" and "1 \<le> N" and "\<not> stop_requested (dl s)"
    and "\<And>n. \<not> stop_called (engine ev n url (request_opts s fmt N))"
    and "\<And>n. \<not> stop_during_sleep ev n"
    and "\<And>n. outcome (engine ev n url (request_opts s fmt N)) = Raises (err n)"
  shows "fst (download ev url fmt N s)
           = Inl (RuntimeError (''All attempts failed. Last error: ''
                                @ exn_str (err (engine_calls (trace s) + nat N - 1))))"
  using download_all_fail(1)[OF assms] by (simp add: all_failed_error_def)

theorem exhausted_attempts_error_witness:
  "fst (download (world failing_engine) ''https://x/video'' ''mp4'' 3 fresh)
     = Inl (RuntimeError ''All attempts failed. Last error: network timeout'')"
proof -
  have r: "request_ready (world failing_engine) ''mp4'' fresh"
    by (simp add: request_ready_def world_def fresh_def)
  have n: "(1::int) \<le> 3" by simp
  have ns: "\<not> stop_requested (dl fresh)" by (simp add: fresh_def init_def)
  have a: "\<And>n. \<not> stop_called (engine (world failing_engine) n ''https://x/video''
                      (request_opts fresh ''mp4'' 3))"
    by (simp add: world_def failing_engine_def)
  have b: "\<And>n. \<not> stop_during_sleep (world failing_engine) n"
    by (simp add: world_def)
  have c: "\<And>n. outcome (engine (world failing_engine) n ''https://x/video''
                      (request_opts fresh ''mp4'' 3))
              = Raises ((\<lambda>n. DownloadError ''network timeout'') n)"
    by (simp add: world_def failing_engine_def)
  from exhausted_attempts_error[OF r n ns a b c] show ?thesis
    by simp
qed

theorem error_omits_attempt_count:
  "fst (download (world failing_engine) ''https://x/video'' ''mp4'' 1 fresh)
     = Inl (RuntimeError ''All attempts failed. Last error: network timeout'')
   \<and> engine_calls (trace (snd (download (world failing_engine) ''https://x/video'' ''mp4'' 1 fresh))) = 1
   \<and> fst (download (world failing_engine) ''https://x/video'' ''mp4'' 2 fresh)
     = Inl (RuntimeError ''All attempts failed. Last error: network timeout'')
   \<and> engine_calls (trace (snd (download (world failing_engine) ''https://x/video'' ''mp4'' 2 fresh))) = 2"
  by code_simp

text \<open>
  C4. For a "downloading" event with integer byte counts the hook raises nothing and stores
  the counts; the stored percent is \<open>downloaded / total * 100\<close> exactly when
  \<open>total > 0\<close> and \<open>downloaded \<noteq> 0\<close>.  So a missing downloaded count (stored as
  \<open>-1\<close>) gives a negative percent, and a downloaded count of \<open>0\<close> gives none.
\<close>

theorem percent_guard:
  "dict_get e ''status'' = PyStr ''downloading'' \<Longrightarrow>
   event_downloaded e = PyInt dn \<Longrightarrow> event_total e = PyInt t \<Longrightarrow>
   fst (progress_hook e self) = None
   \<and> last_progress (snd (progress_hook e self))
       = Downloading
          \<lparr>downloaded_bytes = PyInt dn, total_bytes = PyInt t,
           percent = (if 0 < t \<and> dn \<noteq> 0 then Some (of_int dn / of_int t * 100) else None),
           speed = dict_get e ''speed'', eta = dict_get e ''eta''\<rparr>"
  by (simp add: progress_hook_ints)

theorem percent_guard_witness:
  "fst (progress_hook [(''status'', PyStr ''downloading''), (''total_bytes'', PyInt 100)]
          (init ''/tmp/out'' False)) = None
   \<and> last_progress (snd (progress_hook
          [(''status'', PyStr ''downloading''), (''total_bytes'', PyInt 100)]
          (init ''/tmp/out'' False)))
       = Downloading \<lparr>downloaded_bytes = PyInt (- 1), total_bytes = PyInt 100,
                      percent = Some (- 1), speed = PyNone, eta = PyNone\<rparr>
   \<and> last_progress (snd (progress_hook
          [(''status'', PyStr ''downloading''), (''downloaded_bytes'', PyInt 0),
           (''total_bytes'', PyInt 100)]
          (init ''/tmp/out'' False)))
       = Downloading \<lparr>downloaded_bytes = PyInt 0, total_bytes = PyInt 100,
                      percent = None, speed = PyNone, eta = PyNone\<rparr>"
proof -
  let ?e1 = "[(''status'', PyStr ''downloading''), (''total_bytes'', PyInt 100)]"
  let ?e2 = "[(''status'', PyStr ''downloading''), (''downloaded_bytes'', PyInt 0),
              (''total_bytes'', PyInt 100)]"
  have s1: "dict_get ?e1 ''status'' = PyStr ''downloading''" by (simp add: dict_get_def)
  have d1: "event_downloaded ?e1 = PyInt (- 1)"
    by (simp add: event_downloaded_def dict_get_default_def)
  have t1: "event_total ?e1 = PyInt 100" by (simp add: event_total_def dict_get_def py_or_def)
  have s2: "dict_get ?e2 ''status'' = PyStr ''downloading''" by (simp add: dict_get_def)
  have d2: "event_downloaded ?e2 = PyInt 0"
    by (simp add: event_downloaded_def dict_get_default_def)
  have t2: "event_total ?e2 = PyInt 100" by (simp add: event_total_def dict_get_def py_or_def)
  from percent_guard[OF s1 d1 t1, of "init ''/tmp/out'' False"]
       percent_guard[OF s2 d2 t2, of "init ''/tmp/out'' False"]
  show ?thesis by (simp add: dict_get_def)
qed

text \<open>
  C5. The engine raises on attempts \<open>1 \<dots> K - 1\<close> and returns an info dictionary on
  attempt \<open>K \<le> N\<close>, no cancellation: \<open>download\<close> invokes the engine exactly
  \<open>K\<close> times, sleeps \<open>1 + attempt\<close> after attempts \<open>1 \<dots> K - 1\<close> only (the last
  effect is the \<open>K\<close>th invocation), and returns the output directory joined with
  \<open><title> [<id>].<ext>\<close>, where the title is \<open>info.get("title") or info.get("id")\<close>.
\<close>

theorem success_on_attempt_K:
  assumes ready: "request_ready ev fmt s" and K: "1 \<le> K" "K \<le> N"
    and run: "\<not> stop_requested (dl s)"
    and nostop: "\<And>n. \<not> stop_called (engine ev n url (request_opts s fmt N))"
                "\<And>n. \<not> stop_during_sleep ev n"
    and fails: "\<And>i. i < nat K - 1 \<Longrightarrow>
                  outcome (engine ev (engine_calls (trace s) + i) url (request_opts s fmt N))
                    = Raises (err (engine_calls (trace s) + i))"
    and succeeds: "outcome (engine ev (engine_calls (trace s) + nat K - 1) url
                              (request_opts s fmt N)) = Returns (Some info)"
  shows "fst (download ev url fmt N s)
           = Inr (path_join (output_dir (dl s))
                    (py_str (py_or (dict_get info ''title'') (dict_get info ''id''))
                     @ '' ['' @ py_str (dict_get info ''id'') @ ''].'' @ fmt))
       \<and> engine_calls (trace (snd (download ev url fmt N s))) = engine_calls (trace s) + nat K
       \<and> sleeps (trace (snd (download ev url fmt N s)))
           = sleeps (trace s) @ map (\<lambda>a. 1 + a) [1..K - 1]
       \<and> last (trace (snd (download ev url fmt N s))) = Extract url (request_opts s fmt N)"
proof -
  let ?opts = "request_opts s fmt N"
  have fmt: "fmt = ''mp4'' \<or> fmt = ''mp3''"
    using ready by (auto simp: request_ready_def)
  from download_ready[OF ready, of url N] obtain s1 where
    d: "download ev url fmt N s = download_loop ev url fmt ?opts [1..N] None s1"
    and s1: "dl s1 = dl s" "engine_calls (trace s1) = engine_calls (trace s)"
            "sleeps (trace s1) = sleeps (trace s)"
    by blast
  have split: "[1..N] = [1..K - 1] @ K # [K + 1..N]"
    using K by (simp add: upto_split3)
  have ns1: "\<not> stop_requested (dl s1)" using run s1 by simp
  have len: "length [1..K - 1] = nat K - 1" using K by simp
  have fails1: "\<And>i. i < length [1..K - 1] \<Longrightarrow>
      outcome (engine ev (engine_calls (trace s1) + i) url ?opts)
        = Raises (err (engine_calls (trace s1) + i))"
    using fails by (simp only: len s1)
  from loop_failures[where ev = ev and url = url and opts = ?opts and s = s1
        and pre = "[1..K - 1]" and rest = "K # [K + 1..N]" and err = err and fmt = fmt
        and last_err = None, OF nostop ns1 fails1]
  obtain s' le where
    l: "download_loop ev url fmt ?opts ([1..K - 1] @ K # [K + 1..N]) None s1
          = download_loop ev url fmt ?opts (K # [K + 1..N]) le s'"
    and tr: "trace s' = trace s1 @ concat (map (\<lambda>a. [Extract url ?opts, Sleep (1 + a)]) [1..K - 1])"
    and ns': "\<not> stop_requested (dl s')"
    and od: "output_dir (dl s') = output_dir (dl s1)"
    by blast
  have k': "engine_calls (trace s') = engine_calls (trace s) + nat K - 1"
    using K by (simp add: tr engine_calls_append attempts_trace_calls s1)
  have out: "outcome (engine ev (engine_calls (trace s')) url ?opts) = Returns (Some info)"
    using succeeds by (simp only: k')
  obtain r s2 where ra: "run_attempt ev url fmt ?opts s' = (r, s2)"
    by (cases "run_attempt ev url fmt ?opts s'") blast
  from run_attempt_returns[OF out, of fmt] ra
  have r: "r = Inr (final_path (output_dir (dl s')) fmt info)"
    and tr2: "trace s2 = trace s' @ [Extract url ?opts]"
    by simp_all
  have res: "download ev url fmt N s = (Inr (final_path (output_dir (dl s)) fmt info), s2)"
    using ns' by (simp add: d split l ra r od s1)
  have c1: "fst (download ev url fmt N s)
           = Inr (path_join (output_dir (dl s))
                    (py_str (py_or (dict_get info ''title'') (dict_get info ''id''))
                     @ '' ['' @ py_str (dict_get info ''id'') @ ''].'' @ fmt))"
    by (simp add: res final_path_supported[OF fmt])
  have c2: "engine_calls (trace (snd (download ev url fmt N s))) = engine_calls (trace s) + nat K"
  proof -
    have "engine_calls (trace s2) = engine_calls (trace s') + 1"
      by (simp add: tr2 engine_calls_def)
    then show ?thesis using K by (simp add: res k')
  qed
  have c3: "sleeps (trace (snd (download ev url fmt N s)))
           = sleeps (trace s) @ map (\<lambda>a. 1 + a) [1..K - 1]"
    by (simp add: res tr2 tr sleeps_append attempts_trace_sleeps s1)
  have c4: "last (trace (snd (download ev url fmt N s))) = Extract url ?opts"
    by (simp add: res tr2)
  from c1 c2 c3 c4 show ?thesis by blast
qed

theorem success_on_attempt_K_witness:
  "fst (download (world second_try_engine) ''https://x/video'' ''mp4'' 3 fresh)
     = Inr ''/tmp/out/Clip [abc123].mp4''
   \<and> engine_calls (trace (snd (download (world second_try_engine) ''https://x/video'' ''mp4'' 3 fresh)))
     = 2
   \<and> sleeps (trace (snd (download (world second_try_engine) ''https://x/video'' ''mp4'' 3 fresh)))
     = [2]
   \<and> last (trace (snd (download (world second_try_engine) ''https://x/video'' ''mp4'' 3 fresh)))
     = Extract ''https://x/video'' (request_opts fresh ''mp4'' 3)"
proof -
  let ?info = "[(''title'', PyStr ''Clip''), (''id'', PyStr ''abc123'')]"
  have r: "request_ready (world second_try_engine) ''mp4'' fresh"
    by (simp add: request_ready_def world_def fresh_def)
  have k: "(1::int) \<le> 2" "(2::int) \<le> 3" by simp_all
  have ns: "\<not> stop_requested (dl fresh)" by (simp add: fresh_def init_def)
  have a: "\<And>n. \<not> stop_called (engine (world second_try_engine) n ''https://x/video''
                      (request_opts fresh ''mp4'' 3))"
    by (simp add: world_def second_try_engine_def)
  have b: "\<And>n. \<not> stop_during_sleep (world second_try_engine) n"
    by (simp add: world_def)
  have c: "\<And>i. i < nat 2 - 1 \<Longrightarrow>
      outcome (engine (world second_try_engine) (engine_calls (trace fresh) + i)
                 ''https://x/video'' (request_opts fresh ''mp4'' 3))
        = Raises ((\<lambda>n. DownloadError ''network timeout'') (engine_calls (trace fresh) + i))"
    by (simp add: world_def second_try_engine_def fresh_def engine_calls_def)
  have e: "outcome (engine (world second_try_engine) (engine_calls (trace fresh) + nat 2 - 1)
                 ''https://x/video'' (request_opts fresh ''mp4'' 3)) = Returns (Some ?info)"
    by (simp add: world_def second_try_engine_def fresh_def engine_calls_def)
  have u: "[1..2 - 1::int] = [1]" by (simp add: upto_rec1)
  from success_on_attempt_K[OF r k ns a b c e] show ?thesis
    by (simp add: u fresh_def engine_calls_def init_def path_join_def dict_get_def py_or_def)
qed

text \<open>
  C6. The stop flag is read at the top of every iteration.  If it is set there, the
  attempt does not start: the loop returns the cancellation error with the state untouched.
  If \<open>stop()\<close> is called during the sleep after a failed attempt, the next attempt
  does not start (one engine invocation in all).  If it is set before \<open>download\<close> is
  called on a request that passes the checks, the engine is never invoked.
\<close>

theorem cancellation_checked_before_each_attempt:
  "(stop_requested (dl s) \<longrightarrow>
      download_loop ev url fmt opts (attempt # rest) last_err s = (Inl stopped_error, s))
   \<and> (\<not> stop_requested (dl s) \<and> fst (run_attempt ev url fmt opts s) = Inl e
        \<and> stop_during_sleep ev (sleep_count (trace s)) \<longrightarrow>
      fst (download_loop ev url fmt opts (attempt # next_attempt # rest) last_err s)
        = Inl stopped_error
      \<and> engine_calls (trace (snd (download_loop ev url fmt opts
                                     (attempt # next_attempt # rest) last_err s)))
        = engine_calls (trace s) + 1)
   \<and> (request_ready ev fmt s \<and> 1 \<le> N \<and> stop_requested (dl s) \<longrightarrow>
      fst (download ev url fmt N s) = Inl stopped_error
      \<and> engine_calls (trace (snd (download ev url fmt N s))) = engine_calls (trace s))"
proof (intro conjI impI)
  assume "stop_requested (dl s)"
  then show "download_loop ev url fmt opts (attempt # rest) last_err s = (Inl stopped_error, s)"
    by simp
next
  assume a: "\<not> stop_requested (dl s) \<and> fst (run_attempt ev url fmt opts s) = Inl e
        \<and> stop_during_sleep ev (sleep_count (trace s))"
  obtain r s1 where ra: "run_attempt ev url fmt opts s = (r, s1)"
    by (cases "run_attempt ev url fmt opts s") blast
  with a have r: "r = Inl e" by simp
  have tr1: "trace s1 = trace s @ [Extract url opts]"
    using run_attempt_effects[of ev url fmt opts s] ra by simp
  let ?s2 = "sleep ev (1 + attempt) s1"
  have sc: "sleep_count (trace s1) = sleep_count (trace s)"
    by (simp add: tr1 sleep_count_def)
  have st: "stop_requested (dl ?s2)"
    using a by (simp add: sleep_effects sc)
  have tr2: "trace ?s2 = trace s @ [Extract url opts, Sleep (1 + attempt)]"
    by (simp add: sleep_effects tr1)
  have res: "download_loop ev url fmt opts (attempt # next_attempt # rest) last_err s
      = (Inl stopped_error, ?s2)"
    using a st by (simp add: ra r)
  show "fst (download_loop ev url fmt opts (attempt # next_attempt # rest) last_err s)
        = Inl stopped_error"
    by (simp only: res fst_conv)
  show "engine_calls (trace (snd (download_loop ev url fmt opts
                                     (attempt # next_attempt # rest) last_err s)))
        = engine_calls (trace s) + 1"
    unfolding res snd_conv tr2 by (simp add: engine_calls_def)
next
  assume a: "request_ready ev fmt s \<and> 1 \<le> N \<and> stop_requested (dl s)"
  then have ready: "request_ready ev fmt s" and N: "1 \<le> N" and st: "stop_requested (dl s)"
    by simp_all
  from download_ready[OF ready, of url N] obtain s1 where
    d: "download ev url fmt N s = download_loop ev url fmt (request_opts s fmt N) [1..N] None s1"
    and s1: "dl s1 = dl s" "engine_calls (trace s1) = engine_calls (trace s)"
    by blast
  have u: "[1..N] = 1 # [2..N]" using N by (simp add: upto_rec1)
  have res: "download ev url fmt N s = (Inl stopped_error, s1)"
    using st s1 by (simp add: d u)
  show "fst (download ev url fmt N s) = Inl stopped_error" by (simp add: res)
  show "engine_calls (trace (snd (download ev url fmt N s))) = engine_calls (trace s)"
    by (simp add: res s1)
qed

theorem cancellation_checked_before_each_attempt_witness:
  "download_loop (world failing_engine) ''https://x/video'' ''mp4'' (request_opts fresh ''mp4'' 3)
       [2, 3] None (fresh\<lparr>dl := stop (dl fresh)\<rparr>)
     = (Inl stopped_error, fresh\<lparr>dl := stop (dl fresh)\<rparr>)
   \<and> fst (download_loop stop_in_first_sleep ''https://x/video'' ''mp4''
            (request_opts fresh ''mp4'' 3) [1, 2, 3] None fresh) = Inl stopped_error
   \<and> engine_calls (trace (snd (download_loop stop_in_first_sleep ''https://x/video'' ''mp4''
            (request_opts fresh ''mp4'' 3) [1, 2, 3] None fresh))) = engine_calls (trace fresh) + 1
   \<and> fst (download (world failing_engine) ''https://x/video'' ''mp4'' 3
            (fresh\<lparr>dl := stop (dl fresh)\<rparr>)) = Inl stopped_error
   \<and> engine_calls (trace (snd (download (world failing_engine) ''https://x/video'' ''mp4'' 3
            (fresh\<lparr>dl := stop (dl fresh)\<rparr>)))) = engine_calls (trace (fresh\<lparr>dl := stop (dl fresh)\<rparr>))"
proof -
  let ?u = "''https://x/video''"
  let ?o = "request_opts fresh ''mp4'' 3"
  let ?st = "fresh\<lparr>dl := stop (dl fresh)\<rparr>"
  have h1: "stop_requested (dl ?st)" by (simp add: stop_def)
  have h2: "\<not> stop_requested (dl fresh)
        \<and> fst (run_attempt stop_in_first_sleep ?u ''mp4'' ?o fresh)
            = Inl (DownloadError ''network timeout'')
        \<and> stop_during_sleep stop_in_first_sleep (sleep_count (trace fresh))"
    by (simp add: fresh_def init_def run_attempt_def stop_in_first_sleep_def world_def
        failing_engine_def sleep_count_def Let_def)
  have h3: "request_ready (world failing_engine) ''mp4'' ?st \<and> (1::int) \<le> 3
        \<and> stop_requested (dl ?st)"
    by (simp add: request_ready_def world_def fresh_def stop_def)
  from cancellation_checked_before_each_attempt
         [of ?st "world failing_engine" ?u "''mp4''" ?o 2 "[3]" None]
  have c1: "download_loop (world failing_engine) ?u ''mp4'' ?o [2, 3] None ?st
      = (Inl stopped_error, ?st)"
    using h1 by blast
  from cancellation_checked_before_each_attempt
         [of fresh stop_in_first_sleep ?u "''mp4''" ?o 1 "[3]" None
             "DownloadError ''network timeout''" 2]
  have c2: "fst (download_loop stop_in_first_sleep ?u ''mp4'' ?o [1, 2, 3] None fresh)
        = Inl stopped_error
      \<and> engine_calls (trace (snd (download_loop stop_in_first_sleep ?u ''mp4'' ?o
                                     [1, 2, 3] None fresh)))
        = engine_calls (trace fresh) + 1"
    using h2 by blast
  from cancellation_checked_before_each_attempt
         [of ?st "world failing_engine" ?u "''mp4''" ?o 2 "[3]" None
             "DownloadError ''network timeout''" 2 3]
  have c3: "fst (download (world failing_engine) ?u ''mp4'' 3 ?st) = Inl stopped_error
      \<and> engine_calls (trace (snd (download (world failing_engine) ?u ''mp4'' 3 ?st)))
        = engine_calls (trace ?st)"
    using h3 by blast
  from c1 c2 c3 show ?thesis by blast
qed

text \<open>
  C7. With format \<open>mp3\<close> and no ffmpeg on PATH, \<open>download\<close> fails with the
  missing-dependency error; the PATH lookup is the only effect, and the engine is not invoked.
\<close>

theorem audio_without_ffmpeg:
  "\<not> ffmpeg_on_path ev \<Longrightarrow>
   download ev url ''mp3'' max_retries s
     = (Inl ffmpeg_error, s\<lparr>trace := trace s @ [Which ''ffmpeg'']\<rparr>)
   \<and> engine_calls (trace (snd (download ev url ''mp3'' max_retries s))) = engine_calls (trace s)"
  by (simp add: download_def check_ffmpeg_available_def engine_calls_def)

theorem audio_without_ffmpeg_witness:
  "download ((world failing_engine)\<lparr>ffmpeg_on_path := False\<rparr>) ''https://x/video'' ''mp3'' 3 fresh
     = (Inl ffmpeg_error, fresh\<lparr>trace := trace fresh @ [Which ''ffmpeg'']\<rparr>)
   \<and> engine_calls (trace (snd (download ((world failing_engine)\<lparr>ffmpeg_on_path := False\<rparr>)
                                  ''https://x/video'' ''mp3'' 3 fresh)))
       = engine_calls (trace fresh)"
  by (rule audio_without_ffmpeg) (simp add: world_def)

text \<open>
  C8. A request whose format is neither \<open>mp4\<close> nor \<open>mp3\<close> fails at once with the
  invalid-format error (a \<open>ValueError\<close>): the state comes back unchanged, so the trace
  holds no PATH lookup, no directory test and no engine invocation.
\<close>

theorem invalid_format_fails_first:
  "output_format \<noteq> ''mp4'' \<Longrightarrow> output_format \<noteq> ''mp3'' \<Longrightarrow>
   download ev url output_format max_retries s = (Inl format_error, s)
   \<and> trace (snd (download ev url output_format max_retries s)) = trace s"
  by (simp add: download_def)

theorem invalid_format_fails_first_witness:
  "download (world failing_engine) ''https://x/video'' ''avi'' 3 fresh = (Inl format_error, fresh)
   \<and> trace (snd (download (world failing_engine) ''https://x/video'' ''avi'' 3 fresh)) = trace fresh"
  by (rule invalid_format_fails_first) simp_all

text \<open>
  C9. The output directory does not exist.  If \<open>os.makedirs\<close> raises (an \<open>OSError\<close>,
  of which \<open>IOError\<close> is an alias), \<open>download\<close> ends with that exception right after
  the call, without invoking the engine.  If it succeeds, the loop starts in a state where
  the directory and each of its parents exist.
\<close>

theorem output_directory_step:
  "(fmt = ''mp4'' \<or> (fmt = ''mp3'' \<and> ffmpeg_on_path ev)) \<Longrightarrow>
   output_dir (dl s) \<notin> set (dirs s) \<Longrightarrow>
   (makedirs_error ev (output_dir (dl s)) = Some e \<longrightarrow>
      download ev url fmt N s
        = (Inl e, s\<lparr>trace := trace s @ (if fmt = ''mp3'' then [Which ''ffmpeg''] else [])
                                @ [IsDir (output_dir (dl s)), Makedirs (output_dir (dl s))]\<rparr>)
      \<and> engine_calls (trace (snd (download ev url fmt N s))) = engine_calls (trace s))
   \<and> (makedirs_error ev (output_dir (dl s)) = None \<longrightarrow>
      download ev url fmt N s
        = download_loop ev url fmt (request_opts s fmt N) [1..N] None
            (s\<lparr>trace := trace s @ (if fmt = ''mp3'' then [Which ''ffmpeg''] else [])
                              @ [IsDir (output_dir (dl s)), Makedirs (output_dir (dl s))],
               dirs := dirs s @ path_prefixes [] (output_dir (dl s))\<rparr>)
      \<and> (output_dir (dl s) \<noteq> [] \<longrightarrow>
           output_dir (dl s) \<in> set (dirs s @ path_prefixes [] (output_dir (dl s))))
      \<and> (\<forall>p rest. output_dir (dl s) = p @ CHR ''/'' # rest \<and> p \<noteq> [] \<and> last p \<noteq> CHR ''/'' \<longrightarrow>
           p \<in> set (dirs s @ path_prefixes [] (output_dir (dl s)))))"
proof -
  assume fmt: "fmt = ''mp4'' \<or> (fmt = ''mp3'' \<and> ffmpeg_on_path ev)"
    and absent: "output_dir (dl s) \<notin> set (dirs s)"
  let ?d = "output_dir (dl s)"
  define pr where "pr = (if fmt = ''mp3'' then [Which ''ffmpeg''] else [])"
  let ?s0 = "s\<lparr>trace := trace s @ pr\<rparr>"
  have d0: "download ev url fmt N s = download_from_template ev url fmt N ?s0"
    using fmt by (auto simp: download_def check_ffmpeg_available_def pr_def)
  have abs0: "output_dir (dl ?s0) \<notin> set (dirs ?s0)" using absent by simp
  have refused: "download ev url fmt N s
        = (Inl e, s\<lparr>trace := trace s @ pr @ [IsDir ?d, Makedirs ?d]\<rparr>)"
    if m: "makedirs_error ev ?d = Some e"
  proof -
    have t: "safe_output_template ev ?d ?s0
        = (Inl e, ?s0\<lparr>trace := trace ?s0 @ [IsDir ?d, Makedirs ?d]\<rparr>)"
      using template_refused[of ?d ?s0 ev e] abs0 m by simp
    show ?thesis by (simp add: d0 download_from_template_def t)
  qed
  have created: "download ev url fmt N s
        = download_loop ev url fmt (request_opts s fmt N) [1..N] None
            (s\<lparr>trace := trace s @ pr @ [IsDir ?d, Makedirs ?d],
               dirs := dirs s @ path_prefixes [] ?d\<rparr>)"
    if m: "makedirs_error ev ?d = None"
  proof -
    have t: "safe_output_template ev ?d ?s0
        = (Inr (path_join ?d ''%(title)s [%(id)s].%(ext)s''),
           ?s0\<lparr>trace := trace ?s0 @ [IsDir ?d, Makedirs ?d],
                dirs := dirs ?s0 @ path_prefixes [] ?d\<rparr>)"
      using template_created[of ?d ?s0 ev] abs0 m by simp
    show ?thesis by (simp add: d0 download_from_template_def t request_opts_def)
  qed
  have calls: "engine_calls (trace s @ pr @ [IsDir ?d, Makedirs ?d]) = engine_calls (trace s)"
    by (simp add: engine_calls_def pr_def)
  show ?thesis
  proof (intro conjI impI allI)
    assume m: "makedirs_error ev ?d = Some e"
    show "download ev url fmt N s
        = (Inl e, s\<lparr>trace := trace s @ (if fmt = ''mp3'' then [Which ''ffmpeg''] else [])
                                @ [IsDir ?d, Makedirs ?d]\<rparr>)"
      using refused[OF m] by (simp only: pr_def)
    show "engine_calls (trace (snd (download ev url fmt N s))) = engine_calls (trace s)"
      using calls by (simp add: refused[OF m])
  next
    assume m: "makedirs_error ev ?d = None"
    show "download ev url fmt N s
        = download_loop ev url fmt (request_opts s fmt N) [1..N] None
            (s\<lparr>trace := trace s @ (if fmt = ''mp3'' then [Which ''ffmpeg''] else [])
                              @ [IsDir ?d, Makedirs ?d],
               dirs := dirs s @ path_prefixes [] ?d\<rparr>)"
      using created[OF m] by (simp only: pr_def)
  next
    assume "?d \<noteq> []"
    then show "?d \<in> set (dirs s @ path_prefixes [] ?d)"
      using path_prefixes_self[of "[]" ?d] by simp
  next
    fix p rest
    assume "?d = p @ CHR ''/'' # rest \<and> p \<noteq> [] \<and> last p \<noteq> CHR ''/''"
    then show "p \<in> set (dirs s @ path_prefixes [] ?d)"
      using path_prefixes_parent[of "[]" p rest] by simp
  qed
qed

theorem output_directory_step_witness:
  "download read_only_world ''https://x/video'' ''mp4'' 3 fresh
     = (Inl (OSError ''[Errno 13] Permission denied''),
        fresh\<lparr>trace := [IsDir ''/tmp/out'', Makedirs ''/tmp/out'']\<rparr>)
   \<and> engine_calls (trace (snd (download read_only_world ''https://x/video'' ''mp4'' 3 fresh))) = 0
   \<and> download (world second_try_engine) ''https://x/video'' ''mp4'' 3 fresh
     = download_loop (world second_try_engine) ''https://x/video'' ''mp4''
         (request_opts fresh ''mp4'' 3) [1..3] None
         (fresh\<lparr>trace := [IsDir ''/tmp/out'', Makedirs ''/tmp/out''],
                dirs := [''/tmp'', ''/tmp/out'']\<rparr>)
   \<and> ''/tmp/out'' \<in> set (dirs fresh @ path_prefixes [] (output_dir (dl fresh)))
   \<and> ''/tmp'' \<in> set (dirs fresh @ path_prefixes [] (output_dir (dl fresh)))"
proof -
  have f: "''mp4'' = ''mp4'' \<or> (''mp4'' = ''mp3'' \<and> ffmpeg_on_path read_only_world)" by simp
  have g: "''mp4'' = ''mp4'' \<or> (''mp4'' = ''mp3'' \<and> ffmpeg_on_path (world second_try_engine))"
    by simp
  have a: "output_dir (dl fresh) \<notin> set (dirs fresh)" by (simp add: fresh_def)
  have m1: "makedirs_error read_only_world (output_dir (dl fresh))
              = Some (OSError ''[Errno 13] Permission denied'')"
    by (simp add: read_only_world_def world_def)
  have m2: "makedirs_error (world second_try_engine) (output_dir (dl fresh)) = None"
    by (simp add: world_def)
  have pp: "path_prefixes [] ''/tmp/out'' = [''/tmp'', ''/tmp/out'']" by simp
  from output_directory_step[OF f a, of "OSError ''[Errno 13] Permission denied''"
          "''https://x/video''" 3] m1
  have c1: "download read_only_world ''https://x/video'' ''mp4'' 3 fresh
     = (Inl (OSError ''[Errno 13] Permission denied''),
        fresh\<lparr>trace := [IsDir ''/tmp/out'', Makedirs ''/tmp/out'']\<rparr>)
   \<and> engine_calls (trace (snd (download read_only_world ''https://x/video'' ''mp4'' 3 fresh))) = 0"
    by (simp add: fresh_def init_def engine_calls_def)
  from output_directory_step[OF g a, of "OSError ''x''" "''https://x/video''" 3] m2
  have c2: "download (world second_try_engine) ''https://x/video'' ''mp4'' 3 fresh
     = download_loop (world second_try_engine) ''https://x/video'' ''mp4''
         (request_opts fresh ''mp4'' 3) [1..3] None
         (fresh\<lparr>trace := [IsDir ''/tmp/out'', Makedirs ''/tmp/out''],
                dirs := [''/tmp'', ''/tmp/out'']\<rparr>)"
    by (simp add: fresh_def init_def pp)
  from output_directory_step[OF g a, of "OSError ''x''" "''https://x/video''" 3] m2
  have slf: "output_dir (dl fresh) \<noteq> [] \<longrightarrow>
           output_dir (dl fresh) \<in> set (dirs fresh @ path_prefixes [] (output_dir (dl fresh)))"
    and par: "\<forall>p rest. output_dir (dl fresh) = p @ CHR ''/'' # rest \<and> p \<noteq> []
                 \<and> last p \<noteq> CHR ''/'' \<longrightarrow>
           p \<in> set (dirs fresh @ path_prefixes [] (output_dir (dl fresh)))"
    by blast+
  have od: "output_dir (dl fresh) = ''/tmp/out''" by (simp add: fresh_def init_def)
  from slf have c3: "''/tmp/out'' \<in> set (dirs fresh @ path_prefixes [] (output_dir (dl fresh)))"
    by (simp add: od)
  from par[rule_format, of "''/tmp''" "''out''"]
  have c4: "''/tmp'' \<in> set (dirs fresh @ path_prefixes [] (output_dir (dl fresh)))"
    by (simp add: od)
  from c1 c2 c3 c4 show ?thesis by blast
qed

text \<open>
  C10. \<open>stop()\<close> sets the flag; the progress hook and \<open>download\<close> keep a set flag set.
  Once it is set, every later \<open>download\<close> on the same object, whatever the request, returns
  an error without invoking the engine.
\<close>

theorem stop_is_permanent:
  "stop_requested (stop d)
   \<and> (stop_requested d \<longrightarrow>
        stop_requested (stop d) \<and> stop_requested (snd (progress_hook e d))
        \<and> stop_requested (ingest es d))
   \<and> (stop_requested (dl s) \<longrightarrow>
        list_all isl (fst (download_all ev reqs s))
        \<and> engine_calls (trace (snd (download_all ev reqs s))) = engine_calls (trace s)
        \<and> stop_requested (dl (snd (download_all ev reqs s))))"
  using download_all_when_stopped[of s ev reqs]
  by (simp add: stop_def progress_hook_fields ingest_fields)

theorem stop_is_permanent_witness:
  "stop_requested (stop (init ''/tmp/out'' False))
   \<and> stop_requested (snd (progress_hook [(''status'', PyStr ''finished'')]
                             (stop (init ''/tmp/out'' False))))
   \<and> list_all isl (fst (download_all (world second_try_engine)
        [(''/tmp/out'', ''https://x/video'', ''mp4'', 3), (''/tmp/b'', ''https://x/other'', ''mp3'', 1)]
        (fresh\<lparr>dl := stop (dl fresh)\<rparr>)))
   \<and> engine_calls (trace (snd (download_all (world second_try_engine)
        [(''/tmp/out'', ''https://x/video'', ''mp4'', 3), (''/tmp/b'', ''https://x/other'', ''mp3'', 1)]
        (fresh\<lparr>dl := stop (dl fresh)\<rparr>)))) = 0"
proof -
  let ?d = "stop (init ''/tmp/out'' False)"
  let ?s = "fresh\<lparr>dl := stop (dl fresh)\<rparr>"
  let ?reqs = "[(''/tmp/out'', ''https://x/video'', ''mp4'', 3::int),
                (''/tmp/b'', ''https://x/other'', ''mp3'', 1)]"
  have h1: "stop_requested ?d" by (simp add: stop_def)
  have h2: "stop_requested (dl ?s)" by (simp add: stop_def)
  have z: "engine_calls (trace ?s) = 0" by (simp add: fresh_def engine_calls_def)
  from stop_is_permanent[of ?d "[(''status'', PyStr ''finished'')]" "[]" ?s
         "world second_try_engine" ?reqs] h1 h2 z
  show ?thesis by simp
qed

end
